theory Spec2Isabelle
  imports Complex_Main
begin

section \<open>Floating-point values\<close>

text \<open>
  Prices, profit-and-loss figures and the metrics are Python/NumPy floats. A float is
  modelled as a real number or one of the three special values of IEEE arithmetic;
  rounding, overflow and the sign of zero are not modelled.
\<close>

datatype fl = Fin real | PosInf | NegInf | NaN

fun fl_neg :: "fl \<Rightarrow> fl" where
  "fl_neg (Fin a) = Fin (- a)"
| "fl_neg PosInf = NegInf"
| "fl_neg NegInf = PosInf"
| "fl_neg NaN = NaN"

fun fl_add :: "fl \<Rightarrow> fl \<Rightarrow> fl" where
  "fl_add (Fin a) (Fin b) = Fin (a + b)"
| "fl_add NaN y = NaN"
| "fl_add x NaN = NaN"
| "fl_add PosInf NegInf = NaN"
| "fl_add NegInf PosInf = NaN"
| "fl_add PosInf y = PosInf"
| "fl_add NegInf y = NegInf"
| "fl_add (Fin a) y = y"

definition fl_sub :: "fl \<Rightarrow> fl \<Rightarrow> fl" where
  "fl_sub x y = fl_add x (fl_neg y)"

fun fl_mul :: "fl \<Rightarrow> fl \<Rightarrow> fl" where
  "fl_mul (Fin a) (Fin b) = Fin (a * b)"
| "fl_mul NaN y = NaN"
| "fl_mul x NaN = NaN"
| "fl_mul (Fin a) y = (if a = 0 then NaN else if 0 < a then y else fl_neg y)"
| "fl_mul x (Fin b) = (if b = 0 then NaN else if 0 < b then x else fl_neg x)"
| "fl_mul PosInf y = y"
| "fl_mul NegInf y = fl_neg y"

text \<open>Division of NumPy floats: dividing by zero gives an infinity or NaN (with a
  warning), not an exception.\<close>

fun fl_div :: "fl \<Rightarrow> fl \<Rightarrow> fl" where
  "fl_div (Fin a) (Fin b) =
     (if b = 0 then (if 0 < a then PosInf else if a < 0 then NegInf else NaN)
      else Fin (a / b))"
| "fl_div NaN y = NaN"
| "fl_div x NaN = NaN"
| "fl_div (Fin a) y = Fin 0"
| "fl_div x (Fin b) = (if 0 \<le> b then x else fl_neg x)"
| "fl_div x y = NaN"

fun fl_sqrt :: "fl \<Rightarrow> fl" where
  "fl_sqrt (Fin a) = (if a < 0 then NaN else Fin (sqrt a))"
| "fl_sqrt PosInf = PosInf"
| "fl_sqrt NegInf = NaN"
| "fl_sqrt NaN = NaN"

definition fl_sum :: "fl list \<Rightarrow> fl" where
  "fl_sum xs = foldl fl_add (Fin 0) xs"

section \<open>The strategy: \<open>MultiOrderRSI\<close> (strategies.py)\<close>

text \<open>
  The strategy keeps two Python lists of dicts, \<open>open_positions\<close> and
  \<open>closed_positions\<close>. A dict that is closed is mutated in place while both the list of
  open positions and the list of positions to close refer to it, and \<open>list.remove\<close>
  compares dicts by identity and then by contents. The dicts therefore live in a store,
  a list indexed by address, and the two lists hold addresses.
\<close>

datatype side = Long | Short

text \<open>
  A position dict. The five exit keys are absent (\<open>None\<close>) until the position is closed.
  \<open>order_ref\<close> and \<open>exit_order\<close> hold the orders returned by the broker, identified by
  their reference number.
\<close>

record position =
  ptype :: side
  entry_rsi :: real
  entry_price :: fl
  entry_time :: int
  order_ref :: nat
  exit_order :: "nat option"
  exit_rsi :: "real option"
  exit_time :: "int option"
  exit_price :: "fl option"
  pnl :: "fl option"

record params =
  rsi_period :: nat
  buy_rsi :: real
  sell_rsi :: real
  exit_buy_rsi :: real
  exit_sell_rsi :: real

definition default_params :: params where
  "default_params =
     \<lparr>rsi_period = 14, buy_rsi = 30, sell_rsi = 70, exit_buy_rsi = 70, exit_sell_rsi = 30\<rparr>"

text \<open>The values \<open>next\<close> reads at index 0: \<open>self.rsi[0]\<close>, \<open>self.data.close[0]\<close> and
  \<open>self.data.datetime.datetime(0)\<close> (a timestamp, in seconds).\<close>

record bar =
  bar_rsi :: real
  bar_close :: fl
  bar_datetime :: int

datatype order = BuyOrder | SellOrder

text \<open>The exceptions. \<open>ValueError\<close> is what \<open>list.remove\<close> raises. \<open>LibraryError\<close> stands for
  an exception raised inside pandas: the source does not fix its Python type, which differs
  between versions of the library. The other three are the errors the specification names,
  which no statement of the code raises.\<close>

datatype error = ValueError | LibraryError | DataError | EmptyLedgerError | DegenerateSeriesError

record strategy =
  store :: "position list"
  open_positions :: "nat list"
  closed_positions :: "nat list"
  broker :: "order list"

text \<open>\<open>__init__\<close>: both lists empty, nothing allocated, no order submitted.\<close>

definition init :: strategy where
  "init = \<lparr>store = [], open_positions = [], closed_positions = [], broker = []\<rparr>"

text \<open>\<open>self.buy()\<close> and \<open>self.sell()\<close> submit an order to the broker and return it; the
  order is identified by its place in the broker's list of submitted orders.\<close>

definition buy :: "strategy \<Rightarrow> nat \<times> strategy" where
  "buy s = (length (broker s), s\<lparr>broker := broker s @ [BuyOrder]\<rparr>)"

definition sell :: "strategy \<Rightarrow> nat \<times> strategy" where
  "sell s = (length (broker s), s\<lparr>broker := broker s @ [SellOrder]\<rparr>)"

text \<open>\<open>self.open_positions.append({...})\<close>: a new dict is allocated at the end of the
  store and its address appended to the list of open positions.\<close>

definition open_position :: "side \<Rightarrow> real \<Rightarrow> fl \<Rightarrow> int \<Rightarrow> nat \<Rightarrow> strategy \<Rightarrow> strategy" where
  "open_position sd r price now ord s =
     s\<lparr>store := store s @
          [\<lparr>ptype = sd, entry_rsi = r, entry_price = price, entry_time = now,
            order_ref = ord, exit_order = None, exit_rsi = None, exit_time = None,
            exit_price = None, pnl = None\<rparr>],
       open_positions := open_positions s @ [length (store s)]\<rparr>"

text \<open>Step 3, the loop \<open>for pos in self.open_positions\<close>: the list is not changed while
  it is scanned; only the broker receives orders.\<close>

fun exit_scan ::
  "params \<Rightarrow> real \<Rightarrow> nat list \<Rightarrow> (nat \<times> nat) list \<Rightarrow> strategy \<Rightarrow> (nat \<times> nat) list \<times> strategy"
where
  "exit_scan p r [] acc s = (acc, s)"
| "exit_scan p r (a # as) acc s =
     (let pos = store s ! a;
          (acc1, s1) =
            (if ptype pos = Long \<and> r > exit_buy_rsi p
             then (let (ord, s') = sell s in (acc @ [(a, ord)], s'))
             else (acc, s));
          (acc2, s2) =
            (if ptype pos = Short \<and> r < exit_sell_rsi p
             then (let (ord, s') = buy s1 in (acc1 @ [(a, ord)], s'))
             else (acc1, s1))
      in exit_scan p r as acc2 s2)"

text \<open>\<open>list.remove(pos)\<close>: removes the first element that is \<open>pos\<close> itself or a dict with
  equal contents, and raises \<open>ValueError\<close> when there is none.\<close>

fun list_remove :: "position list \<Rightarrow> nat \<Rightarrow> nat list \<Rightarrow> error + nat list" where
  "list_remove st a [] = Inl ValueError"
| "list_remove st a (x # xs) =
     (if x = a \<or> st ! x = st ! a then Inr xs
      else (case list_remove st a xs of Inl e \<Rightarrow> Inl e | Inr ys \<Rightarrow> Inr (x # ys)))"

text \<open>The body of the loop \<open>for pos, order in positions_to_close\<close>, on the dict at
  address \<open>a\<close>.\<close>

definition close_dict :: "real \<Rightarrow> fl \<Rightarrow> int \<Rightarrow> nat \<Rightarrow> position \<Rightarrow> position" where
  "close_dict r price now ord pos =
     (let pos1 = pos\<lparr>exit_order := Some ord, exit_rsi := Some r, exit_time := Some now,
                     exit_price := Some price\<rparr>
      in pos1\<lparr>pnl := Some (if ptype pos1 = Long then fl_sub price (entry_price pos1)
                            else fl_sub (entry_price pos1) price)\<rparr>)"

fun close_positions ::
  "real \<Rightarrow> fl \<Rightarrow> int \<Rightarrow> (nat \<times> nat) list \<Rightarrow> strategy \<Rightarrow> error + strategy"
where
  "close_positions r price now [] s = Inr s"
| "close_positions r price now ((a, ord) # rest) s =
     (let s1 = s\<lparr>store := (store s)[a := close_dict r price now ord (store s ! a)],
                 closed_positions := closed_positions s @ [a]\<rparr>
      in case list_remove (store s1) a (open_positions s1) of
           Inl e \<Rightarrow> Inl e
         | Inr opn \<Rightarrow> close_positions r price now rest (s1\<lparr>open_positions := opn\<rparr>))"

text \<open>Steps 1 and 2 of \<open>next\<close>: open a buy order below \<open>buy_rsi\<close>, then a sell order
  above \<open>sell_rsi\<close>; the two tests are independent.\<close>

definition open_orders :: "params \<Rightarrow> bar \<Rightarrow> strategy \<Rightarrow> strategy" where
  "open_orders p b s =
     (let r = bar_rsi b; price = bar_close b; now = bar_datetime b;
          s1 = (if r < buy_rsi p
                then (let (ord, s') = buy s in open_position Long r price now ord s')
                else s)
      in if r > sell_rsi p
         then (let (ord, s') = sell s1 in open_position Short r price now ord s')
         else s1)"

text \<open>\<open>MultiOrderRSI.next\<close>: the entries, then the scan of every open position, then
  the closing of the positions collected by the scan.\<close>

definition MultiOrderRSI_next :: "params \<Rightarrow> bar \<Rightarrow> strategy \<Rightarrow> error + strategy" where
  "MultiOrderRSI_next p b s =
     (let s2 = open_orders p b s;
          (positions_to_close, s3) = exit_scan p (bar_rsi b) (open_positions s2) [] s2
      in close_positions (bar_rsi b) (bar_close b) (bar_datetime b) positions_to_close s3)"

text \<open>The framework calls \<open>next\<close> once per bar, in the order of the feed; an exception
  ends the run.\<close>

fun run :: "params \<Rightarrow> bar list \<Rightarrow> strategy \<Rightarrow> error + strategy" where
  "run p [] s = Inr s"
| "run p (b # bs) s =
     (case MultiOrderRSI_next p b s of Inl e \<Rightarrow> Inl e | Inr s' \<Rightarrow> run p bs s')"

subsection \<open>Auxiliary notions for the strategy\<close>

text \<open>The exit test of step 3 for one position dict.\<close>

definition should_exit :: "params \<Rightarrow> real \<Rightarrow> position \<Rightarrow> bool" where
  "should_exit p r pos \<longleftrightarrow>
     (ptype pos = Long \<and> r > exit_buy_rsi p) \<or> (ptype pos = Short \<and> r < exit_sell_rsi p)"

text \<open>
  The states the strategy can be in: no address occurs twice among the open positions,
  every address is allocated, a dict in \<open>open_positions\<close> has no exit keys and a dict in
  \<open>closed_positions\<close> has them.
\<close>

definition wf :: "strategy \<Rightarrow> bool" where
  "wf s \<longleftrightarrow>
     distinct (open_positions s) \<and>
     (\<forall>a \<in> set (open_positions s). a < length (store s) \<and> exit_price (store s ! a) = None) \<and>
     (\<forall>a \<in> set (closed_positions s). a < length (store s) \<and> exit_price (store s ! a) \<noteq> None)"

text \<open>The dict literal of steps 1 and 2, and the dicts one call of \<open>next\<close> allocates
  when the broker has received \<open>n\<close> orders so far.\<close>

definition fresh :: "side \<Rightarrow> bar \<Rightarrow> nat \<Rightarrow> position" where
  "fresh sd b ord =
     \<lparr>ptype = sd, entry_rsi = bar_rsi b, entry_price = bar_close b,
      entry_time = bar_datetime b, order_ref = ord, exit_order = None, exit_rsi = None,
      exit_time = None, exit_price = None, pnl = None\<rparr>"

definition entries :: "params \<Rightarrow> bar \<Rightarrow> nat \<Rightarrow> position list" where
  "entries p b n =
     (if bar_rsi b < buy_rsi p then [fresh Long b n] else []) @
     (if bar_rsi b > sell_rsi p
      then [fresh Short b (if bar_rsi b < buy_rsi p then Suc n else n)] else [])"

section \<open>The metrics: \<open>compute_sharpe_metrics\<close> (data_utils.py)\<close>

text \<open>
  The data frame of closed trades. The two columns the function requires, \<open>exit_time\<close>
  (a timestamp in seconds) and \<open>pnl\<close> (a float), are kept row by row; the column
  \<open>exit_date\<close> is present or not; any other column is in the extension of the record.
\<close>

record ledger =
  rows :: "(int \<times> fl) list"
  exit_date :: "int list option"

record metrics =
  daily_returns_complete :: "(int \<times> fl) list"
  annual_vol :: fl
  annual_sharpe :: fl
  mean_daily_return :: fl

text \<open>\<open>.dt.date\<close>: the calendar day of a timestamp, as a day number.\<close>

definition to_date :: "int \<Rightarrow> int" where
  "to_date t = t div 86400"

text \<open>\<open>groupby(key)[value].sum()\<close>: one entry for each distinct key, in increasing order of
  the keys, holding the sum of the values of the rows with that key; the sum skips NaN
  values, and is \<open>0\<close> when nothing is left.\<close>

definition groupby_sum :: "(int \<times> fl) list \<Rightarrow> (int \<times> fl) list" where
  "groupby_sum kvs =
     map (\<lambda>d. (d, fl_sum (filter (\<lambda>v. v \<noteq> NaN) (map snd (filter (\<lambda>kv. fst kv = d) kvs)))))
       (sort (remdups (map fst kvs)))"

text \<open>\<open>Index.min()\<close> and \<open>Index.max()\<close>: NaN, here \<open>None\<close>, for an empty index.\<close>

definition index_min :: "int list \<Rightarrow> int option" where
  "index_min ks = (if ks = [] then None else Some (Min (set ks)))"

definition index_max :: "int list \<Rightarrow> int option" where
  "index_max ks = (if ks = [] then None else Some (Max (set ks)))"

text \<open>\<open>pd.date_range(start, end, freq="D")\<close>: every day from \<open>start\<close> to \<open>end\<close>. With a NaN
  bound no range can be built and pandas raises.\<close>

fun date_range :: "int option \<Rightarrow> int option \<Rightarrow> error + int list" where
  "date_range (Some a) (Some b) = Inr [a..b]"
| "date_range start_date end_date = Inl LibraryError"

text \<open>\<open>reindex\<close>: the entries of the new index in its order; an entry missing from the
  old index is NaN. \<open>fillna(0.0)\<close> replaces every NaN.\<close>

definition reindex :: "(int \<times> fl) list \<Rightarrow> int list \<Rightarrow> (int \<times> fl) list" where
  "reindex series idx =
     map (\<lambda>d. (d, case map_of series d of Some v \<Rightarrow> v | None \<Rightarrow> NaN)) idx"

definition fillna :: "fl \<Rightarrow> (int \<times> fl) list \<Rightarrow> (int \<times> fl) list" where
  "fillna v series = map (\<lambda>(d, x). (d, if x = NaN then v else x)) series"

text \<open>\<open>Series.mean()\<close> and \<open>Series.std()\<close> (sample standard deviation, \<open>ddof = 1\<close>) of a
  series without NaN: the deviation is NaN when the series has at most one entry.\<close>

definition series_mean :: "fl list \<Rightarrow> fl" where
  "series_mean xs = fl_div (fl_sum xs) (Fin (real (length xs)))"

definition series_std :: "fl list \<Rightarrow> fl" where
  "series_std xs =
     (let avg = series_mean xs;
          sqr = map (\<lambda>x. fl_mul (fl_sub avg x) (fl_sub avg x)) xs
      in if length xs \<le> 1 then NaN
         else fl_sqrt (fl_div (fl_sum sqr) (Fin (real (length xs) - 1))))"

text \<open>
  \<open>compute_sharpe_metrics\<close>. The first component of the result is the frame \<open>df\<close> as the
  call leaves it; the second is the exception raised or the tuple returned. With no row
  the index of the daily returns is empty, its minimum and maximum are NaN, and the date
  range cannot be built.
\<close>

definition compute_sharpe_metrics ::
  "'a ledger_scheme \<Rightarrow> real \<Rightarrow> real \<Rightarrow> 'a ledger_scheme \<times> (error + metrics)"
where
  "compute_sharpe_metrics df start_cash risk_free_rate =
     (let df1 = df\<lparr>exit_date := Some (map (\<lambda>row. to_date (fst row)) (rows df))\<rparr>;
          daily_pnl = groupby_sum (zip (the (exit_date df1)) (map snd (rows df1)));
          daily_returns = map (\<lambda>(d, v). (d, fl_div v (Fin start_cash))) daily_pnl;
          start_date = index_min (map fst daily_returns);
          end_date = index_max (map fst daily_returns)
      in case date_range start_date end_date of
           Inl e \<Rightarrow> (df1, Inl e)
         | Inr full_date_range \<Rightarrow>
          (let daily_returns_reindexed = reindex daily_returns full_date_range;
               complete = fillna (Fin 0) daily_returns_reindexed;
               daily_returns_series = map snd complete;
               daily_vol = series_std daily_returns_series;
               a_vol = fl_mul daily_vol (Fin (sqrt 252));
               daily_rf = risk_free_rate / 252;
               daily_sharpe =
                 fl_div (fl_sub (series_mean daily_returns_series) (Fin daily_rf)) daily_vol;
               a_sharpe = fl_mul daily_sharpe (Fin (sqrt 252));
               mean_daily = series_mean daily_returns_series
           in (df1, Inr \<lparr>daily_returns_complete = complete, annual_vol = a_vol,
                          annual_sharpe = a_sharpe, mean_daily_return = mean_daily\<rparr>)))"

subsection \<open>Auxiliary notions for the metrics\<close>

text \<open>The arithmetic mean and the sample standard deviation (denominator \<open>N - 1\<close>) of a
  series of reals, as the specification words them; the results of \<open>series_mean\<close> and
  \<open>series_std\<close> are compared with these.\<close>

definition mean :: "real list \<Rightarrow> real" where
  "mean xs = sum_list xs / real (length xs)"

definition sample_std :: "real list \<Rightarrow> real" where
  "sample_std xs = sqrt (sum_list (map (\<lambda>x. (x - mean xs)\<^sup>2) xs) / (real (length xs) - 1))"

text \<open>The calendar days on which a trade of the frame was closed, the sum of the \<open>pnl\<close>
  values other than NaN of the trades closed on a day, and that sum divided by the starting
  capital.\<close>

definition exit_dates :: "'a ledger_scheme \<Rightarrow> int set" where
  "exit_dates df = (\<lambda>row. to_date (fst row)) ` set (rows df)"

definition pnl_on :: "'a ledger_scheme \<Rightarrow> int \<Rightarrow> fl" where
  "pnl_on df d =
     fl_sum (filter (\<lambda>v. v \<noteq> NaN)
       (map snd (filter (\<lambda>row. to_date (fst row) = d) (rows df))))"

definition daily_return :: "'a ledger_scheme \<Rightarrow> real \<Rightarrow> int \<Rightarrow> fl" where
  "daily_return df c d = fl_div (pnl_on df d) (Fin c)"

section \<open>Properties of the strategy\<close>

lemma exit_scan_frame:
  "store (snd (exit_scan p r as acc s)) = store s \<and>
   open_positions (snd (exit_scan p r as acc s)) = open_positions s \<and>
   closed_positions (snd (exit_scan p r as acc s)) = closed_positions s"
  by (induction as arbitrary: acc s) (simp_all add: Let_def split_beta sell_def buy_def)

lemma exit_scan_marks:
  "map fst (fst (exit_scan p r as acc s)) =
     map fst acc @ filter (\<lambda>a. should_exit p r (store s ! a)) as"
proof (induction as arbitrary: acc s)
  case Nil
  show ?case by simp
next
  case (Cons a as)
  show ?case
    by (cases "ptype (store s ! a)")
       (simp_all add: Cons.IH Let_def split_beta sell_def buy_def should_exit_def)
qed

lemma list_remove_ok:
  "a \<in> set xs \<Longrightarrow> \<forall>x \<in> set xs. x \<noteq> a \<longrightarrow> st ! x \<noteq> st ! a \<Longrightarrow>
   distinct xs \<Longrightarrow> list_remove st a xs = Inr (filter (\<lambda>x. x \<noteq> a) xs)"
proof (induction xs)
  case Nil
  then show ?case by simp
next
  case (Cons x xs)
  show ?case
  proof (cases "x = a")
    case True
    with Cons.prems have "filter (\<lambda>y. y \<noteq> a) xs = xs"
      by (auto simp: filter_id_conv)
    with True show ?thesis by simp
  next
    case False
    with Cons show ?thesis by auto
  qed
qed


lemma close_dict_fields:
  "exit_price (close_dict r price now ord pos) = Some price"
  "exit_time (close_dict r price now ord pos) = Some now"
  "exit_rsi (close_dict r price now ord pos) = Some r"
  "exit_order (close_dict r price now ord pos) = Some ord"
  "pnl (close_dict r price now ord pos) =
     Some (if ptype pos = Long then fl_sub price (entry_price pos)
           else fl_sub (entry_price pos) price)"
  "ptype (close_dict r price now ord pos) = ptype pos"
  "entry_price (close_dict r price now ord pos) = entry_price pos"
  "entry_time (close_dict r price now ord pos) = entry_time pos"
  "entry_rsi (close_dict r price now ord pos) = entry_rsi pos"
  "order_ref (close_dict r price now ord pos) = order_ref pos"
  by (simp_all add: close_dict_def Let_def)

lemma close_positions_ok:
  assumes "distinct (open_positions s)"
    and "distinct (map fst tc)"
    and "fst ` set tc \<subseteq> set (open_positions s)"
    and "\<forall>a \<in> set (open_positions s). a < length (store s) \<and> exit_price (store s ! a) = None"
  shows "\<exists>s'. close_positions r price now tc s = Inr s' \<and>
     open_positions s' = filter (\<lambda>a. a \<notin> fst ` set tc) (open_positions s) \<and>
     closed_positions s' = closed_positions s @ map fst tc \<and>
     broker s' = broker s \<and> length (store s') = length (store s) \<and>
     (\<forall>(a, ord) \<in> set tc. store s' ! a = close_dict r price now ord (store s ! a)) \<and>
     (\<forall>c. c \<notin> fst ` set tc \<longrightarrow> store s' ! c = store s ! c)"
  using assms
proof (induction tc arbitrary: s)
  case Nil
  then show ?case by simp
next
  case (Cons x tc)
  obtain a ord where x: "x = (a, ord)" by (cases x)
  define st where "st = (store s)[a := close_dict r price now ord (store s ! a)]"
  define s1 where "s1 = s\<lparr>store := st, closed_positions := closed_positions s @ [a]\<rparr>"
  define s2 where "s2 = s1\<lparr>open_positions := filter (\<lambda>y. y \<noteq> a) (open_positions s)\<rparr>"
  from Cons.prems x have a_open: "a \<in> set (open_positions s)" by auto
  with Cons.prems have a_len: "a < length (store s)" by blast
  have st_a: "st ! a = close_dict r price now ord (store s ! a)"
    using a_len by (simp add: st_def)
  have st_other: "\<And>c. c \<noteq> a \<Longrightarrow> st ! c = store s ! c"
    by (simp add: st_def)
  have "\<forall>y \<in> set (open_positions s). y \<noteq> a \<longrightarrow> st ! y \<noteq> st ! a"
  proof (intro ballI impI)
    fix y assume "y \<in> set (open_positions s)" "y \<noteq> a"
    with Cons.prems have "exit_price (st ! y) = None" by (simp add: st_other)
    moreover have "exit_price (st ! a) = Some price" by (simp add: st_a close_dict_fields)
    ultimately show "st ! y \<noteq> st ! a" by auto
  qed
  with a_open have "list_remove st a (open_positions s) = Inr (filter (\<lambda>y. y \<noteq> a) (open_positions s))"
    using Cons.prems(1) by (intro list_remove_ok) 
  then have rm: "list_remove st a (open_positions s) = Inr (filter (\<lambda>y. y \<noteq> a) (open_positions s))"
    .
  have step: "close_positions r price now (x # tc) s = close_positions r price now tc s2"
    by (simp add: x rm [unfolded st_def] s1_def s2_def st_def Let_def)
  have a_notin: "a \<notin> fst ` set tc"
    using Cons.prems(2) x by (auto simp: image_iff)
  have p1: "distinct (open_positions s2)"
    using Cons.prems(1) by (simp add: s2_def s1_def)
  have p2: "distinct (map fst tc)" using Cons.prems(2) by simp
  have p3: "fst ` set tc \<subseteq> set (open_positions s2)"
    using Cons.prems(3) a_notin by (auto simp: s2_def s1_def)
  have p4: "\<forall>c \<in> set (open_positions s2). c < length (store s2) \<and> exit_price (store s2 ! c) = None"
    using Cons.prems(4) by (auto simp: s2_def s1_def st_other) (simp add: st_def)
  from Cons.IH [OF p1 p2 p3 p4]
  obtain s' where s': "close_positions r price now tc s2 = Inr s'"
    "open_positions s' = filter (\<lambda>c. c \<notin> fst ` set tc) (open_positions s2)"
    "closed_positions s' = closed_positions s2 @ map fst tc"
    "broker s' = broker s2" "length (store s') = length (store s2)"
    "\<forall>(c, ord) \<in> set tc. store s' ! c = close_dict r price now ord (store s2 ! c)"
    "\<forall>c. c \<notin> fst ` set tc \<longrightarrow> store s' ! c = store s2 ! c"
    by blast
  have q1: "open_positions s' = filter (\<lambda>c. c \<notin> fst ` set (x # tc)) (open_positions s)"
    by (simp add: s'(2) s2_def s1_def x conj_commute)
  have q2: "closed_positions s' = closed_positions s @ map fst (x # tc)"
    by (simp add: s'(3) s2_def s1_def x)
  have q3: "broker s' = broker s" by (simp add: s'(4) s2_def s1_def)
  have q4: "length (store s') = length (store s)" by (simp add: s'(5) s2_def s1_def st_def)
  have q5: "\<forall>(c, o') \<in> set (x # tc). store s' ! c = close_dict r price now o' (store s ! c)"
  proof (clarify)
    fix c o' assume "(c, o') \<in> set (x # tc)"
    then consider "c = a" "o' = ord" | "(c, o') \<in> set tc" using x by auto
    then show "store s' ! c = close_dict r price now o' (store s ! c)"
    proof cases
      case 1
      with s'(7) a_notin show ?thesis by (simp add: s2_def s1_def st_a)
    next
      case 2
      then have "c \<noteq> a" using a_notin by (auto simp: image_iff)
      with 2 s'(6) show ?thesis by (auto simp: s2_def s1_def st_other)
    qed
  qed
  have q6: "\<forall>c. c \<notin> fst ` set (x # tc) \<longrightarrow> store s' ! c = store s ! c"
    using s'(7) by (auto simp: x s2_def s1_def st_other)
  show ?case
    unfolding step using s'(1) q1 q2 q3 q4 q5 q6 by blast
qed


lemma open_orders_store:
  "store (open_orders p b s) = store s @ entries p b (length (broker s))"
  by (simp add: open_orders_def entries_def fresh_def buy_def sell_def open_position_def Let_def)

lemma open_orders_open:
  "open_positions (open_orders p b s) =
     open_positions s @
       [length (store s) ..< length (store s) + length (entries p b (length (broker s)))]"
  by (simp add: open_orders_def entries_def buy_def sell_def open_position_def Let_def
      upt_rec [of "length (store s)"])

lemma open_orders_closed:
  "closed_positions (open_orders p b s) = closed_positions s"
  by (simp add: open_orders_def buy_def sell_def open_position_def Let_def)

lemma entries_open: "d \<in> set (entries p b n) \<Longrightarrow> exit_price d = None"
  by (auto simp: entries_def fresh_def split: if_splits)

lemma open_orders_wf_open:
  assumes "wf s"
  shows "distinct (open_positions (open_orders p b s))"
    and "\<forall>a \<in> set (open_positions (open_orders p b s)).
           a < length (store (open_orders p b s)) \<and>
           exit_price (store (open_orders p b s) ! a) = None"
proof -
  let ?n = "length (store s)" and ?new = "entries p b (length (broker s))"
  from assms have old: "distinct (open_positions s)"
    "\<forall>a \<in> set (open_positions s). a < ?n \<and> exit_price (store s ! a) = None"
    by (simp_all add: wf_def)
  then show "distinct (open_positions (open_orders p b s))"
    by (auto simp: open_orders_open)
  show "\<forall>a \<in> set (open_positions (open_orders p b s)).
           a < length (store (open_orders p b s)) \<and>
           exit_price (store (open_orders p b s) ! a) = None"
  proof
    fix a assume "a \<in> set (open_positions (open_orders p b s))"
    then consider "a \<in> set (open_positions s)" | "?n \<le> a" "a < ?n + length ?new"
      by (auto simp: open_orders_open)
    then show "a < length (store (open_orders p b s)) \<and>
           exit_price (store (open_orders p b s) ! a) = None"
    proof cases
      case 1
      with old show ?thesis by (auto simp: open_orders_store nth_append)
    next
      case 2
      then have "?new ! (a - ?n) \<in> set ?new" by simp
      then have "exit_price (?new ! (a - ?n)) = None" by (rule entries_open)
      with 2 show ?thesis by (simp add: open_orders_store nth_append)
    qed
  qed
qed

lemma next_char:
  fixes p :: params and b :: bar and s :: strategy
  assumes "wf s"
  defines "s2 \<equiv> open_orders p b s"
  defines "cs \<equiv> filter (\<lambda>a. should_exit p (bar_rsi b) (store s2 ! a)) (open_positions s2)"
  shows "\<exists>s'. MultiOrderRSI_next p b s = Inr s' \<and>
     open_positions s' =
       filter (\<lambda>a. \<not> should_exit p (bar_rsi b) (store s2 ! a)) (open_positions s2) \<and>
     closed_positions s' = closed_positions s @ cs \<and>
     length (store s') = length (store s2) \<and>
     (\<forall>a \<in> set cs. \<exists>ord. store s' ! a =
        close_dict (bar_rsi b) (bar_close b) (bar_datetime b) ord (store s2 ! a)) \<and>
     (\<forall>c. c \<notin> set cs \<longrightarrow> store s' ! c = store s2 ! c)"
proof -
  obtain tc s3 where scan: "exit_scan p (bar_rsi b) (open_positions s2) [] s2 = (tc, s3)"
    by (cases "exit_scan p (bar_rsi b) (open_positions s2) [] s2")
  from exit_scan_frame [of p "bar_rsi b" "open_positions s2" "[]" s2] scan
  have s3: "store s3 = store s2" "open_positions s3 = open_positions s2"
    "closed_positions s3 = closed_positions s2"
    by simp_all
  from exit_scan_marks [of p "bar_rsi b" "open_positions s2" "[]" s2] scan
  have tc: "map fst tc = cs" by (simp add: cs_def)
  then have tc_set: "fst ` set tc = set cs" by (metis set_map)
  have nxt: "MultiOrderRSI_next p b s =
      close_positions (bar_rsi b) (bar_close b) (bar_datetime b) tc s3"
    using scan by (simp add: MultiOrderRSI_next_def s2_def Let_def)
  have a1: "distinct (open_positions s3)"
    using open_orders_wf_open(1) [OF assms(1)] by (simp add: s3 s2_def)
  have a2: "distinct (map fst tc)"
    using a1 by (simp add: tc cs_def s3)
  have a3: "fst ` set tc \<subseteq> set (open_positions s3)"
    by (auto simp: tc_set cs_def s3)
  have a4: "\<forall>a \<in> set (open_positions s3).
      a < length (store s3) \<and> exit_price (store s3 ! a) = None"
    using open_orders_wf_open(2) [OF assms(1)] by (simp add: s3 s2_def)
  from close_positions_ok [OF a1 a2 a3 a4, of "bar_rsi b" "bar_close b" "bar_datetime b"]
  obtain s' where s':
    "close_positions (bar_rsi b) (bar_close b) (bar_datetime b) tc s3 = Inr s'"
    "open_positions s' = filter (\<lambda>a. a \<notin> fst ` set tc) (open_positions s3)"
    "closed_positions s' = closed_positions s3 @ map fst tc"
    "length (store s') = length (store s3)"
    "\<forall>(a, ord) \<in> set tc. store s' ! a =
        close_dict (bar_rsi b) (bar_close b) (bar_datetime b) ord (store s3 ! a)"
    "\<forall>c. c \<notin> fst ` set tc \<longrightarrow> store s' ! c = store s3 ! c"
    by blast
  have r1: "open_positions s' =
       filter (\<lambda>a. \<not> should_exit p (bar_rsi b) (store s2 ! a)) (open_positions s2)"
    unfolding s'(2) tc_set s3 by (rule filter_cong) (auto simp: cs_def)
  have r2: "closed_positions s' = closed_positions s @ cs"
    by (simp add: s'(3) tc s3 s2_def open_orders_closed)
  have r3: "length (store s') = length (store s2)" by (simp add: s'(4) s3)
  have r4: "\<forall>a \<in> set cs. \<exists>ord. store s' ! a =
        close_dict (bar_rsi b) (bar_close b) (bar_datetime b) ord (store s2 ! a)"
  proof
    fix a assume "a \<in> set cs"
    then obtain ord where "(a, ord) \<in> set tc" using tc_set by force
    with s'(5) show "\<exists>ord. store s' ! a =
        close_dict (bar_rsi b) (bar_close b) (bar_datetime b) ord (store s2 ! a)"
      by (auto simp: s3)
  qed
  have r5: "\<forall>c. c \<notin> set cs \<longrightarrow> store s' ! c = store s2 ! c"
    using s'(6) by (simp add: tc_set s3)
  show ?thesis unfolding nxt using s'(1) r1 r2 r3 r4 r5 by blast
qed


lemma should_exit_close_dict [simp]:
  "should_exit p r (close_dict r' price now ord pos) = should_exit p r pos"
  by (simp add: should_exit_def close_dict_fields)

lemma next_wf:
  assumes "wf s" and "MultiOrderRSI_next p b s = Inr s'"
  shows "wf s'"
proof -
  define s2 where "s2 = open_orders p b s"
  define cs where
    "cs = filter (\<lambda>a. should_exit p (bar_rsi b) (store s2 ! a)) (open_positions s2)"
  from next_char [OF assms(1), of p b] assms(2)
  have c: "open_positions s' =
       filter (\<lambda>a. \<not> should_exit p (bar_rsi b) (store s2 ! a)) (open_positions s2)"
    "closed_positions s' = closed_positions s @ cs"
    "length (store s') = length (store s2)"
    "\<forall>a \<in> set cs. \<exists>ord. store s' ! a =
        close_dict (bar_rsi b) (bar_close b) (bar_datetime b) ord (store s2 ! a)"
    "\<forall>c. c \<notin> set cs \<longrightarrow> store s' ! c = store s2 ! c"
    by (auto simp: s2_def cs_def)
  note o = open_orders_wf_open [OF assms(1), of p b, folded s2_def]
  have w1: "distinct (open_positions s')" using o(1) by (simp add: c(1))
  have w2: "\<forall>a \<in> set (open_positions s').
      a < length (store s') \<and> exit_price (store s' ! a) = None"
  proof
    fix a assume a: "a \<in> set (open_positions s')"
    then have "a \<notin> set cs" "a \<in> set (open_positions s2)" by (auto simp: c(1) cs_def)
    with c(5) o(2) show "a < length (store s') \<and> exit_price (store s' ! a) = None"
      by (simp add: c(3))
  qed
  have w3: "\<forall>a \<in> set (closed_positions s').
      a < length (store s') \<and> exit_price (store s' ! a) \<noteq> None"
  proof
    fix a assume "a \<in> set (closed_positions s')"
    then consider "a \<in> set cs" | "a \<in> set (closed_positions s)" "a \<notin> set cs"
      by (auto simp: c(2))
    then show "a < length (store s') \<and> exit_price (store s' ! a) \<noteq> None"
    proof cases
      case 1
      then have "a \<in> set (open_positions s2)" by (simp add: cs_def)
      with o(2) have "a < length (store s2)" by blast
      moreover from 1 c(4) have "exit_price (store s' ! a) = Some (bar_close b)"
        by (auto simp: close_dict_fields)
      ultimately show ?thesis by (simp add: c(3))
    next
      case 2
      with assms(1) have "a < length (store s)" "exit_price (store s ! a) \<noteq> None"
        by (auto simp: wf_def)
      moreover have "store s2 = store s @ entries p b (length (broker s))"
        by (simp add: s2_def open_orders_store)
      ultimately have "a < length (store s2)" "exit_price (store s2 ! a) \<noteq> None"
        by (simp_all add: nth_append)
      with 2 c(5) show ?thesis by (simp add: c(3))
    qed
  qed
  from w1 w2 w3 show ?thesis by (simp add: wf_def)
qed

lemma wf_init: "wf init"
  by (simp add: wf_def init_def)

lemma run_wf: "wf s \<Longrightarrow> \<exists>s'. run p bs s = Inr s' \<and> wf s'"
proof (induction bs arbitrary: s)
  case Nil
  then show ?case by simp
next
  case (Cons b bs)
  from next_char [OF Cons.prems, of p b]
  obtain s1 where s1: "MultiOrderRSI_next p b s = Inr s1" by blast
  with Cons.prems have "wf s1" by (rule next_wf)
  from Cons.IH [OF this] s1 show ?case by simp
qed

lemma exit_scan_none:
  "\<forall>a \<in> set as. \<not> should_exit p r (store s ! a) \<Longrightarrow> exit_scan p r as acc s = (acc, s)"
  by (induction as) (auto simp: should_exit_def Let_def)


text \<open>
  C10. A bar whose RSI value triggers neither entry (it is not below \<open>buy_rsi\<close> and not
  above \<open>sell_rsi\<close>) and satisfies the exit test of no open position leaves the strategy
  exactly as it was: the open positions, the closed positions, the dicts and the broker's
  orders are unchanged, so nothing is newly closed.
\<close>

theorem quiet_bar_changes_nothing:
  assumes "\<not> bar_rsi b < buy_rsi p" and "\<not> bar_rsi b > sell_rsi p"
    and "\<forall>a \<in> set (open_positions s). \<not> should_exit p (bar_rsi b) (store s ! a)"
  shows "MultiOrderRSI_next p b s = Inr s"
proof -
  from assms(1,2) have "open_orders p b s = s"
    by (simp add: open_orders_def Let_def)
  with assms(3) show ?thesis
    by (simp add: MultiOrderRSI_next_def exit_scan_none)
qed

theorem quiet_bar_changes_nothing_witness:
  "\<not> (50::real) < buy_rsi default_params \<and> \<not> (50::real) > sell_rsi default_params \<and>
   MultiOrderRSI_next default_params \<lparr>bar_rsi = 50, bar_close = Fin 101, bar_datetime = 7\<rparr>
     \<lparr>store = [fresh Long \<lparr>bar_rsi = 25, bar_close = Fin 100, bar_datetime = 5\<rparr> 0],
      open_positions = [0], closed_positions = [], broker = [BuyOrder]\<rparr>
   = Inr \<lparr>store = [fresh Long \<lparr>bar_rsi = 25, bar_close = Fin 100, bar_datetime = 5\<rparr> 0],
      open_positions = [0], closed_positions = [], broker = [BuyOrder]\<rparr>"
  using quiet_bar_changes_nothing [of "\<lparr>bar_rsi = 50, bar_close = Fin 101, bar_datetime = 7\<rparr>"
      default_params
      "\<lparr>store = [fresh Long \<lparr>bar_rsi = 25, bar_close = Fin 100, bar_datetime = 5\<rparr> 0],
        open_positions = [0], closed_positions = [], broker = [BuyOrder]\<rparr>"]
  by (simp add: default_params_def should_exit_def fresh_def)

lemma next_ptype:
  assumes "wf s" and "MultiOrderRSI_next p b s = Inr s'"
  shows "length (store s') = length (store (open_orders p b s))"
    and "ptype (store s' ! a) = ptype (store (open_orders p b s) ! a)"
    and "entry_price (store s' ! a) = entry_price (store (open_orders p b s) ! a)"
    and "entry_time (store s' ! a) = entry_time (store (open_orders p b s) ! a)"
    and "entry_rsi (store s' ! a) = entry_rsi (store (open_orders p b s) ! a)"
proof -
  let ?s2 = "open_orders p b s"
  let ?cs = "filter (\<lambda>a. should_exit p (bar_rsi b) (store ?s2 ! a)) (open_positions ?s2)"
  from next_char [OF assms(1), of p b] assms(2)
  have c: "length (store s') = length (store ?s2)"
    "\<forall>a \<in> set ?cs. \<exists>ord. store s' ! a =
        close_dict (bar_rsi b) (bar_close b) (bar_datetime b) ord (store ?s2 ! a)"
    "\<forall>c. c \<notin> set ?cs \<longrightarrow> store s' ! c = store ?s2 ! c"
    by auto
  show "length (store s') = length (store ?s2)" by (rule c(1))
  have "\<exists>q. store s' ! a = q \<and> ptype q = ptype (store ?s2 ! a) \<and>
      entry_price q = entry_price (store ?s2 ! a) \<and>
      entry_time q = entry_time (store ?s2 ! a) \<and> entry_rsi q = entry_rsi (store ?s2 ! a)"
  proof (cases "a \<in> set ?cs")
    case True
    with c(2) obtain ord where "store s' ! a =
        close_dict (bar_rsi b) (bar_close b) (bar_datetime b) ord (store ?s2 ! a)" by blast
    then show ?thesis by (simp add: close_dict_fields)
  next
    case False
    with c(3) show ?thesis by simp
  qed
  then show "ptype (store s' ! a) = ptype (store ?s2 ! a)"
    and "entry_price (store s' ! a) = entry_price (store ?s2 ! a)"
    and "entry_time (store s' ! a) = entry_time (store ?s2 ! a)"
    and "entry_rsi (store s' ! a) = entry_rsi (store ?s2 ! a)"
    by simp_all
qed

lemma next_scan_covers:
  assumes "wf s" and "MultiOrderRSI_next p b s = Inr s'"
  shows "closed_positions s' = closed_positions s @
           filter (\<lambda>a. should_exit p (bar_rsi b) (store s' ! a))
             (open_positions s @ [length (store s) ..< length (store s')])"
    and "open_positions s' =
           filter (\<lambda>a. \<not> should_exit p (bar_rsi b) (store s' ! a))
             (open_positions s @ [length (store s) ..< length (store s')])"
proof -
  let ?s2 = "open_orders p b s"
  have se: "\<And>a. should_exit p (bar_rsi b) (store s' ! a) =
      should_exit p (bar_rsi b) (store ?s2 ! a)"
    by (simp add: should_exit_def next_ptype(2) [OF assms])
  have len: "length (store s') = length (store s) + length (entries p b (length (broker s)))"
    by (simp add: next_ptype(1) [OF assms] open_orders_store)
  from next_char [OF assms(1), of p b] assms(2)
  have c: "open_positions s' =
       filter (\<lambda>a. \<not> should_exit p (bar_rsi b) (store ?s2 ! a)) (open_positions ?s2)"
    "closed_positions s' = closed_positions s @
       filter (\<lambda>a. should_exit p (bar_rsi b) (store ?s2 ! a)) (open_positions ?s2)"
    by auto
  show "closed_positions s' = closed_positions s @
           filter (\<lambda>a. should_exit p (bar_rsi b) (store s' ! a))
             (open_positions s @ [length (store s) ..< length (store s')])"
    unfolding c(2) se len open_orders_open ..
  show "open_positions s' =
           filter (\<lambda>a. \<not> should_exit p (bar_rsi b) (store s' ! a))
             (open_positions s @ [length (store s) ..< length (store s')])"
    unfolding c(1) se len open_orders_open ..
qed


lemma entries_nth_long:
  "bar_rsi b < buy_rsi p \<Longrightarrow> (store s @ entries p b n) ! length (store s) = fresh Long b n"
  by (simp add: entries_def nth_append)

lemma entries_nth_short:
  "bar_rsi b > sell_rsi p \<Longrightarrow>
   (store s @ entries p b n) ! (length (store s) + (if bar_rsi b < buy_rsi p then 1 else 0))
     = fresh Short b (if bar_rsi b < buy_rsi p then Suc n else n)"
  by (simp add: entries_def nth_append)

lemma length_entries:
  "length (entries p b n) =
     (if bar_rsi b < buy_rsi p then 1 else 0) + (if bar_rsi b > sell_rsi p then 1 else 0)"
  by (simp add: entries_def)

lemmas next_eval = MultiOrderRSI_next_def open_orders_def buy_def sell_def open_position_def
  close_dict_def fl_sub_def Let_def

text \<open>
  C1. In every call of \<open>next\<close> the entries come first and the exit scan then covers every
  position that is open, the ones opened by this call included: the positions the call
  closes are exactly the previously open and the newly allocated positions that meet their
  exit test, in the order of the scan. So when the thresholds let the bar's RSI value meet
  both the entry and the exit test of a side (\<open>exit_buy_rsi < rsi < buy_rsi\<close> for a long,
  \<open>sell_rsi < rsi < exit_sell_rsi\<close> for a short), the position opened on this bar is among
  the positions this bar closes.
\<close>

theorem same_bar_open_and_close:
  assumes "wf s"
  shows "\<exists>s'. MultiOrderRSI_next p b s = Inr s' \<and>
     closed_positions s' = closed_positions s @
        filter (\<lambda>a. should_exit p (bar_rsi b) (store s' ! a))
          (open_positions s @ [length (store s) ..< length (store s')]) \<and>
     (bar_rsi b < buy_rsi p \<and> bar_rsi b > exit_buy_rsi p \<longrightarrow>
        length (store s) \<in> set (drop (length (closed_positions s)) (closed_positions s')) \<and>
        ptype (store s' ! length (store s)) = Long \<and>
        entry_time (store s' ! length (store s)) = bar_datetime b) \<and>
     (bar_rsi b > sell_rsi p \<and> bar_rsi b < exit_sell_rsi p \<longrightarrow>
        length (store s) + (if bar_rsi b < buy_rsi p then 1 else 0)
          \<in> set (drop (length (closed_positions s)) (closed_positions s')) \<and>
        ptype (store s' ! (length (store s) + (if bar_rsi b < buy_rsi p then 1 else 0))) = Short \<and>
        entry_time (store s' ! (length (store s) + (if bar_rsi b < buy_rsi p then 1 else 0)))
          = bar_datetime b)"
proof -
  from next_char [OF assms, of p b]
  obtain s' where s': "MultiOrderRSI_next p b s = Inr s'" by blast
  note pt = next_ptype [OF assms s']
  note cov = next_scan_covers(1) [OF assms s']
  let ?n = "length (store s)"
  let ?k = "?n + (if bar_rsi b < buy_rsi p then 1 else 0)"
  have len: "length (store s') = ?n + length (entries p b (length (broker s)))"
    by (simp add: pt(1) open_orders_store)
  have newly: "drop (length (closed_positions s)) (closed_positions s') =
      filter (\<lambda>a. should_exit p (bar_rsi b) (store s' ! a))
          (open_positions s @ [?n ..< length (store s')])"
    by (subst cov) simp
  have long: "length (store s) \<in> set (drop (length (closed_positions s)) (closed_positions s')) \<and>
        ptype (store s' ! ?n) = Long \<and> entry_time (store s' ! ?n) = bar_datetime b"
    if h: "bar_rsi b < buy_rsi p" "bar_rsi b > exit_buy_rsi p"
  proof -
    have d: "store (open_orders p b s) ! ?n = fresh Long b (length (broker s))"
      using h(1) by (simp add: open_orders_store entries_nth_long)
    have t: "ptype (store s' ! ?n) = Long" "entry_time (store s' ! ?n) = bar_datetime b"
      by (simp_all add: pt d fresh_def)
    have "?n < length (store s')" using h(1) by (simp add: len length_entries)
    moreover have "should_exit p (bar_rsi b) (store s' ! ?n)"
      using h(2) t(1) by (simp add: should_exit_def)
    ultimately show ?thesis using t by (simp add: newly)
  qed
  have short: "?k \<in> set (drop (length (closed_positions s)) (closed_positions s')) \<and>
        ptype (store s' ! ?k) = Short \<and> entry_time (store s' ! ?k) = bar_datetime b"
    if h: "bar_rsi b > sell_rsi p" "bar_rsi b < exit_sell_rsi p"
  proof -
    have d: "store (open_orders p b s) ! ?k =
        fresh Short b (if bar_rsi b < buy_rsi p then Suc (length (broker s)) else length (broker s))"
      using h(1) entries_nth_short [of p b s "length (broker s)"]
      by (simp add: open_orders_store)
    have t: "ptype (store s' ! ?k) = Short" "entry_time (store s' ! ?k) = bar_datetime b"
      by (simp_all add: pt d fresh_def)
    have "?k < length (store s')" "?n \<le> ?k" using h(1) by (simp_all add: len length_entries)
    moreover have "should_exit p (bar_rsi b) (store s' ! ?k)"
      using h(2) t(1) by (simp add: should_exit_def)
    ultimately show ?thesis using t by (simp add: newly)
  qed
  from s' cov long short show ?thesis by blast
qed

theorem same_bar_open_and_close_witness:
  "wf init \<and> (25::real) < 50 \<and> (25::real) > 20 \<and>
   (\<exists>s'. MultiOrderRSI_next (default_params\<lparr>buy_rsi := 50, exit_buy_rsi := 20\<rparr>)
            \<lparr>bar_rsi = 25, bar_close = Fin 100, bar_datetime = 5\<rparr> init = Inr s' \<and>
         0 \<in> set (closed_positions s') \<and> ptype (store s' ! 0) = Long \<and>
         entry_time (store s' ! 0) = 5)"
proof -
  have i: "store init = []" "closed_positions init = []" by (simp_all add: init_def)
  from same_bar_open_and_close [OF wf_init, of "default_params\<lparr>buy_rsi := 50, exit_buy_rsi := 20\<rparr>"
      "\<lparr>bar_rsi = 25, bar_close = Fin 100, bar_datetime = 5\<rparr>"] wf_init
  show ?thesis by (auto simp: i default_params_def)
qed

text \<open>
  C2. Every position that a call of \<open>next\<close> closes records the bar's close as its exit
  price and the bar's timestamp as its exit time, and its \<open>pnl\<close> is the exit price minus
  the entry price for a long and the entry price minus the exit price for a short.
\<close>

theorem closing_pnl_law:
  assumes "wf s" and "MultiOrderRSI_next p b s = Inr s'"
    and "a \<in> set (drop (length (closed_positions s)) (closed_positions s'))"
  shows "exit_price (store s' ! a) = Some (bar_close b) \<and>
     exit_time (store s' ! a) = Some (bar_datetime b) \<and>
     pnl (store s' ! a) =
       Some (case ptype (store s' ! a) of
               Long \<Rightarrow> fl_sub (bar_close b) (entry_price (store s' ! a))
             | Short \<Rightarrow> fl_sub (entry_price (store s' ! a)) (bar_close b))"
proof -
  let ?s2 = "open_orders p b s"
  let ?cs = "filter (\<lambda>a. should_exit p (bar_rsi b) (store ?s2 ! a)) (open_positions ?s2)"
  from next_char [OF assms(1), of p b] assms(2)
  have c: "closed_positions s' = closed_positions s @ ?cs"
    "\<forall>a \<in> set ?cs. \<exists>ord. store s' ! a =
        close_dict (bar_rsi b) (bar_close b) (bar_datetime b) ord (store ?s2 ! a)"
    by auto
  from assms(3) have "a \<in> set ?cs" by (simp add: c(1))
  with c(2) obtain ord where "store s' ! a =
        close_dict (bar_rsi b) (bar_close b) (bar_datetime b) ord (store ?s2 ! a)" by blast
  then show ?thesis
    by (cases "ptype (store ?s2 ! a)") (simp_all add: close_dict_fields)
qed

theorem closing_pnl_law_witness:
  "wf \<lparr>store = [fresh Long \<lparr>bar_rsi = 25, bar_close = Fin 100, bar_datetime = 5\<rparr> 0],
        open_positions = [0], closed_positions = [], broker = [BuyOrder]\<rparr> \<and>
   MultiOrderRSI_next default_params \<lparr>bar_rsi = 75, bar_close = Fin 110, bar_datetime = 6\<rparr>
     \<lparr>store = [fresh Long \<lparr>bar_rsi = 25, bar_close = Fin 100, bar_datetime = 5\<rparr> 0],
      open_positions = [0], closed_positions = [], broker = [BuyOrder]\<rparr>
   = Inr \<lparr>store =
            [\<lparr>ptype = Long, entry_rsi = 25, entry_price = Fin 100, entry_time = 5,
              order_ref = 0, exit_order = Some 2, exit_rsi = Some 75, exit_time = Some 6,
              exit_price = Some (Fin 110), pnl = Some (Fin 10)\<rparr>,
             fresh Short \<lparr>bar_rsi = 75, bar_close = Fin 110, bar_datetime = 6\<rparr> 1],
           open_positions = [1], closed_positions = [0],
           broker = [BuyOrder, SellOrder, SellOrder]\<rparr> \<and>
   pnl \<lparr>ptype = Long, entry_rsi = 25, entry_price = Fin 100, entry_time = 5,
              order_ref = 0, exit_order = Some 2, exit_rsi = Some 75, exit_time = Some 6,
              exit_price = Some (Fin 110), pnl = Some (Fin 10)\<rparr>
     = Some (fl_sub (Fin 110) (Fin 100))"
proof -
  let ?s = "\<lparr>store = [fresh Long \<lparr>bar_rsi = 25, bar_close = Fin 100, bar_datetime = 5\<rparr> 0],
        open_positions = [0], closed_positions = [], broker = [BuyOrder]\<rparr>"
  let ?b = "\<lparr>bar_rsi = 75, bar_close = Fin 110, bar_datetime = 6\<rparr>"
  let ?s' = "\<lparr>store =
            [\<lparr>ptype = Long, entry_rsi = 25, entry_price = Fin 100, entry_time = 5,
              order_ref = 0, exit_order = Some 2, exit_rsi = Some 75, exit_time = Some 6,
              exit_price = Some (Fin 110), pnl = Some (Fin 10)\<rparr>,
             fresh Short ?b 1],
           open_positions = [1], closed_positions = [0],
           broker = [BuyOrder, SellOrder, SellOrder]\<rparr>"
  have h1: "wf ?s" by (simp add: wf_def fresh_def)
  have h2: "MultiOrderRSI_next default_params ?b ?s = Inr ?s'"
    by (simp add: next_eval default_params_def fresh_def)
  have h3: "0 \<in> set (drop (length (closed_positions ?s)) (closed_positions ?s'))" by simp
  from closing_pnl_law [OF h1 h2 h3] h1 h2 show ?thesis by (simp add: fl_sub_def)
qed

text \<open>
  C3. Whatever positions are already open, a call of \<open>next\<close> allocates a long position
  exactly when the RSI value is below \<open>buy_rsi\<close> and a short position exactly when it is
  above \<open>sell_rsi\<close>, one of each at most and both when both tests hold; each new position
  has the bar's close as entry price, the bar's timestamp as entry time and the RSI value
  as entry signal, and is tracked afterwards as open or closed together with all earlier
  positions.
\<close>

theorem pyramiding_entries:
  assumes "wf s"
  shows "\<exists>s'. MultiOrderRSI_next p b s = Inr s' \<and>
     map ptype (drop (length (store s)) (store s')) =
       (if bar_rsi b < buy_rsi p then [Long] else []) @
       (if bar_rsi b > sell_rsi p then [Short] else []) \<and>
     (\<forall>d \<in> set (drop (length (store s)) (store s')).
        entry_price d = bar_close b \<and> entry_time d = bar_datetime b \<and>
        entry_rsi d = bar_rsi b) \<and>
     set (open_positions s') \<union> set (closed_positions s') =
       set (open_positions s) \<union> set (closed_positions s) \<union>
       {length (store s) ..< length (store s')}"
proof -
  from next_char [OF assms, of p b]
  obtain s' where s': "MultiOrderRSI_next p b s = Inr s'" by blast
  note pt = next_ptype [OF assms s']
  note cov = next_scan_covers [OF assms s']
  let ?n = "length (store s)" and ?new = "entries p b (length (broker s))"
  have len: "length (store s') = ?n + length ?new"
    by (simp add: pt(1) open_orders_store)
  have nth_new: "store (open_orders p b s) ! (?n + i) = ?new ! i" for i
    by (simp add: open_orders_store)
  have dr: "drop ?n (store s') = map (\<lambda>i. store s' ! (?n + i)) [0 ..< length ?new]"
    by (rule nth_equalityI) (simp_all add: len)
  have m1: "map ptype (drop ?n (store s')) = map ptype ?new"
    unfolding dr by (rule nth_equalityI) (simp_all add: pt nth_new)
  have m2: "map ptype ?new = (if bar_rsi b < buy_rsi p then [Long] else []) @
       (if bar_rsi b > sell_rsi p then [Short] else [])"
    by (simp add: entries_def fresh_def)
  have m3: "\<forall>d \<in> set (drop ?n (store s')).
        entry_price d = bar_close b \<and> entry_time d = bar_datetime b \<and> entry_rsi d = bar_rsi b"
  proof
    fix d assume "d \<in> set (drop ?n (store s'))"
    then obtain i where i: "i < length ?new" "d = store s' ! (?n + i)"
      unfolding dr by auto
    then have "?new ! i \<in> set ?new" by simp
    then have "entry_price (?new ! i) = bar_close b \<and> entry_time (?new ! i) = bar_datetime b \<and>
        entry_rsi (?new ! i) = bar_rsi b"
      by (auto simp: entries_def fresh_def split: if_splits)
    then show "entry_price d = bar_close b \<and> entry_time d = bar_datetime b \<and>
        entry_rsi d = bar_rsi b"
      by (simp add: i(2) pt nth_new)
  qed
  have m4: "set (open_positions s') \<union> set (closed_positions s') =
       set (open_positions s) \<union> set (closed_positions s) \<union> {?n ..< length (store s')}"
    by (subst cov(1), subst cov(2)) auto
  from s' m1 m2 m3 m4 show ?thesis by simp
qed

theorem pyramiding_entries_witness:
  "wf \<lparr>store = [fresh Long \<lparr>bar_rsi = 25, bar_close = Fin 100, bar_datetime = 5\<rparr> 0],
        open_positions = [0], closed_positions = [], broker = [BuyOrder]\<rparr> \<and>
   (\<exists>s'. MultiOrderRSI_next default_params \<lparr>bar_rsi = 20, bar_close = Fin 90, bar_datetime = 6\<rparr>
     \<lparr>store = [fresh Long \<lparr>bar_rsi = 25, bar_close = Fin 100, bar_datetime = 5\<rparr> 0],
      open_positions = [0], closed_positions = [], broker = [BuyOrder]\<rparr> = Inr s' \<and>
     map ptype (drop 1 (store s')) = [Long] \<and>
     (\<forall>d \<in> set (drop 1 (store s')). entry_price d = Fin 90))"
proof -
  let ?s = "\<lparr>store = [fresh Long \<lparr>bar_rsi = 25, bar_close = Fin 100, bar_datetime = 5\<rparr> 0],
        open_positions = [0], closed_positions = [], broker = [BuyOrder]\<rparr>"
  have h1: "wf ?s" by (simp add: wf_def fresh_def)
  from pyramiding_entries [OF h1, of default_params "\<lparr>bar_rsi = 20, bar_close = Fin 90, bar_datetime = 6\<rparr>"] h1
  show ?thesis by (auto simp: default_params_def)
qed

lemma run_append:
  "run p (bs @ [b]) s =
     (case run p bs s of Inl e \<Rightarrow> Inl e | Inr s1 \<Rightarrow> MultiOrderRSI_next p b s1)"
  by (induction bs arbitrary: s) (simp_all split: sum.splits)

lemma next_new_dicts:
  assumes "wf s" and "MultiOrderRSI_next p b s = Inr s'"
  shows "map ptype (drop (length (store s)) (store s')) =
       (if bar_rsi b < buy_rsi p then [Long] else []) @
       (if bar_rsi b > sell_rsi p then [Short] else [])"
    and "\<forall>d \<in> set (drop (length (store s)) (store s')).
        entry_price d = bar_close b \<and> entry_time d = bar_datetime b \<and>
        entry_rsi d = bar_rsi b"
proof -
  note pt = next_ptype [OF assms]
  let ?n = "length (store s)" and ?new = "entries p b (length (broker s))"
  have len: "length (store s') = ?n + length ?new"
    by (simp add: pt(1) open_orders_store)
  have nth_new: "store (open_orders p b s) ! (?n + i) = ?new ! i" for i
    by (simp add: open_orders_store)
  have dr: "drop ?n (store s') = map (\<lambda>i. store s' ! (?n + i)) [0 ..< length ?new]"
    by (rule nth_equalityI) (simp_all add: len)
  have "map ptype (drop ?n (store s')) = map ptype ?new"
    unfolding dr by (rule nth_equalityI) (simp_all add: pt nth_new)
  then show "map ptype (drop ?n (store s')) =
       (if bar_rsi b < buy_rsi p then [Long] else []) @
       (if bar_rsi b > sell_rsi p then [Short] else [])"
    by (simp add: entries_def fresh_def)
  show "\<forall>d \<in> set (drop ?n (store s')).
        entry_price d = bar_close b \<and> entry_time d = bar_datetime b \<and> entry_rsi d = bar_rsi b"
  proof
    fix d assume "d \<in> set (drop ?n (store s'))"
    then obtain i where i: "i < length ?new" "d = store s' ! (?n + i)"
      unfolding dr by auto
    then have "?new ! i \<in> set ?new" by simp
    then have "entry_price (?new ! i) = bar_close b \<and> entry_time (?new ! i) = bar_datetime b \<and>
        entry_rsi (?new ! i) = bar_rsi b"
      by (auto simp: entries_def fresh_def split: if_splits)
    then show "entry_price d = bar_close b \<and> entry_time d = bar_datetime b \<and>
        entry_rsi d = bar_rsi b"
      by (simp add: i(2) pt nth_new)
  qed
qed

lemma next_exit_fields:
  assumes "wf s" and "MultiOrderRSI_next p b s = Inr s'"
    and "a \<in> set (drop (length (closed_positions s)) (closed_positions s'))"
  shows "exit_price (store s' ! a) = Some (bar_close b)"
    and "exit_time (store s' ! a) = Some (bar_datetime b)"
proof -
  let ?s2 = "open_orders p b s"
  let ?cs = "filter (\<lambda>a. should_exit p (bar_rsi b) (store ?s2 ! a)) (open_positions ?s2)"
  from next_char [OF assms(1), of p b] assms(2)
  have c: "closed_positions s' = closed_positions s @ ?cs"
    "\<forall>a \<in> set ?cs. \<exists>ord. store s' ! a =
        close_dict (bar_rsi b) (bar_close b) (bar_datetime b) ord (store ?s2 ! a)"
    by auto
  from assms(3) have "a \<in> set ?cs" by (simp add: c(1))
  with c(2) obtain ord where "store s' ! a =
        close_dict (bar_rsi b) (bar_close b) (bar_datetime b) ord (store ?s2 ! a)" by blast
  then show "exit_price (store s' ! a) = Some (bar_close b)"
    and "exit_time (store s' ! a) = Some (bar_datetime b)"
    by (simp_all add: close_dict_fields)
qed

text \<open>
  C7, as the claim states it: a bar whose timestamp precedes the previous bar's and whose
  price is not finite would have to be rejected. The run below processes such a bar like
  any other and opens a position at the price NaN, with an entry time before that of the
  position opened earlier.
\<close>

theorem malformed_bars_are_processed:
  "run default_params
     [\<lparr>bar_rsi = 25, bar_close = Fin 100, bar_datetime = 10\<rparr>,
      \<lparr>bar_rsi = 25, bar_close = NaN, bar_datetime = 5\<rparr>] init
   = Inr \<lparr>store = [fresh Long \<lparr>bar_rsi = 25, bar_close = Fin 100, bar_datetime = 10\<rparr> 0,
                   fresh Long \<lparr>bar_rsi = 25, bar_close = NaN, bar_datetime = 5\<rparr> 1],
           open_positions = [0, 1], closed_positions = [], broker = [BuyOrder, BuyOrder]\<rparr>"
  by (simp add: MultiOrderRSI_next_def open_orders_def default_params_def init_def buy_def
      sell_def open_position_def fresh_def Let_def)

text \<open>
  C7, amended: \<open>next\<close> validates nothing. After any sequence of bars, a further bar is
  processed without an exception and by the same rules, whatever its timestamp (also one
  before the previous bar's) and whatever its price (also NaN or an infinity): a long is
  opened exactly when the RSI value is below \<open>buy_rsi\<close> and a short exactly when it is
  above \<open>sell_rsi\<close>, at the bar's close and timestamp, and exactly the open positions that
  meet their exit test, the new ones included, are closed, at the bar's close and timestamp.
\<close>

theorem every_bar_is_processed_by_the_rules:
  "\<exists>s s'. run p bars init = Inr s \<and> run p (bars @ [b]) init = Inr s' \<and>
     MultiOrderRSI_next p b s = Inr s' \<and>
     map ptype (drop (length (store s)) (store s')) =
       (if bar_rsi b < buy_rsi p then [Long] else []) @
       (if bar_rsi b > sell_rsi p then [Short] else []) \<and>
     (\<forall>d \<in> set (drop (length (store s)) (store s')).
        entry_price d = bar_close b \<and> entry_time d = bar_datetime b) \<and>
     closed_positions s' = closed_positions s @
       filter (\<lambda>a. should_exit p (bar_rsi b) (store s' ! a))
         (open_positions s @ [length (store s) ..< length (store s')]) \<and>
     open_positions s' =
       filter (\<lambda>a. \<not> should_exit p (bar_rsi b) (store s' ! a))
         (open_positions s @ [length (store s) ..< length (store s')]) \<and>
     (\<forall>a \<in> set (drop (length (closed_positions s)) (closed_positions s')).
        exit_price (store s' ! a) = Some (bar_close b) \<and>
        exit_time (store s' ! a) = Some (bar_datetime b))"
proof -
  from run_wf [OF wf_init, of p bars]
  obtain s where s: "run p bars init = Inr s" "wf s" by blast
  from next_char [OF s(2), of p b]
  obtain s' where s': "MultiOrderRSI_next p b s = Inr s'" by blast
  have r: "run p (bars @ [b]) init = Inr s'" by (simp add: run_append s(1) s')
  note nd = next_new_dicts [OF s(2) s']
  note cov = next_scan_covers [OF s(2) s']
  have ex: "\<forall>a \<in> set (drop (length (closed_positions s)) (closed_positions s')).
        exit_price (store s' ! a) = Some (bar_close b) \<and>
        exit_time (store s' ! a) = Some (bar_datetime b)"
    using next_exit_fields [OF s(2) s'] by blast
  from nd(2) have nd2: "\<forall>d \<in> set (drop (length (store s)) (store s')).
        entry_price d = bar_close b \<and> entry_time d = bar_datetime b"
    by blast
  from s(1) r s' nd(1) nd2 cov ex show ?thesis by blast
qed

theorem every_bar_is_processed_by_the_rules_witness:
  "\<exists>s s' d. run default_params [\<lparr>bar_rsi = 25, bar_close = Fin 100, bar_datetime = 10\<rparr>] init = Inr s \<and>
     run default_params
       ([\<lparr>bar_rsi = 25, bar_close = Fin 100, bar_datetime = 10\<rparr>] @
        [\<lparr>bar_rsi = 20, bar_close = NaN, bar_datetime = 5\<rparr>]) init = Inr s' \<and>
     length (store s) = 1 \<and> drop 1 (store s') = [d] \<and>
     ptype d = Long \<and> entry_price d = NaN \<and> entry_time d = 5"
proof -
  let ?b1 = "\<lparr>bar_rsi = 25, bar_close = Fin 100, bar_datetime = 10\<rparr>"
  let ?b2 = "\<lparr>bar_rsi = 20, bar_close = NaN, bar_datetime = 5\<rparr>"
  have r1: "run default_params [?b1] init =
      Inr \<lparr>store = [fresh Long ?b1 0], open_positions = [0], closed_positions = [],
           broker = [BuyOrder]\<rparr>"
    by (simp add: next_eval default_params_def init_def fresh_def)
  from every_bar_is_processed_by_the_rules [of default_params "[?b1]" ?b2]
  obtain s s' where h: "run default_params [?b1] init = Inr s"
    "run default_params ([?b1] @ [?b2]) init = Inr s'"
    "map ptype (drop (length (store s)) (store s')) =
       (if bar_rsi ?b2 < buy_rsi default_params then [Long] else []) @
       (if bar_rsi ?b2 > sell_rsi default_params then [Short] else [])"
    "\<forall>d \<in> set (drop (length (store s)) (store s')).
        entry_price d = bar_close ?b2 \<and> entry_time d = bar_datetime ?b2"
    by blast
  from h(1) r1 have l: "length (store s) = 1" by simp
  from h(3) have "map ptype (drop 1 (store s')) = [Long]"
    by (simp add: l default_params_def)
  then obtain d where d: "drop 1 (store s') = [d]" "ptype d = Long" by auto
  with h(4) have "entry_price d = NaN \<and> entry_time d = 5" by (simp add: l)
  with h(1,2) l d show ?thesis by blast
qed

section \<open>Properties of the metrics\<close>

lemma foldl_fl_add_Fin: "foldl fl_add (Fin a) (map Fin xs) = Fin (a + sum_list xs)"
  by (induction xs arbitrary: a) (simp_all add: add.assoc)

lemma fl_sum_Fin: "fl_sum (map Fin xs) = Fin (sum_list xs)"
  by (simp add: fl_sum_def foldl_fl_add_Fin)

lemma series_mean_Fin: "xs \<noteq> [] \<Longrightarrow> series_mean (map Fin xs) = Fin (mean xs)"
  by (simp add: series_mean_def fl_sum_Fin mean_def)

lemma series_std_Fin:
  assumes "2 \<le> length xs"
  shows "series_std (map Fin xs) = Fin (sample_std xs)"
proof -
  from assms have ne: "xs \<noteq> []" by auto
  let ?m = "mean xs"
  have sq: "map (\<lambda>x. fl_mul (fl_sub (Fin ?m) x) (fl_sub (Fin ?m) x)) (map Fin xs) =
      map Fin (map (\<lambda>x. (x - ?m)\<^sup>2) xs)"
    by (simp add: fl_sub_def power2_eq_square algebra_simps)
  have nonneg: "0 \<le> sum_list (map (\<lambda>x. (x - ?m)\<^sup>2) xs)"
    by (rule sum_list_nonneg) auto
  from assms have n: "real (length xs) - 1 > 0" by simp
  with nonneg have q: "\<not> sum_list (map (\<lambda>x. (x - ?m)\<^sup>2) xs) / (real (length xs) - 1) < 0"
    by (simp add: not_less)
  from assms have "\<not> length xs \<le> 1" by simp
  then have "series_std (map Fin xs) =
      fl_sqrt (fl_div (fl_sum (map (\<lambda>x. fl_mul (fl_sub (Fin ?m) x) (fl_sub (Fin ?m) x))
        (map Fin xs))) (Fin (real (length xs) - 1)))"
    by (simp add: series_std_def series_mean_Fin [OF ne] Let_def del: map_map)
  also have "\<dots> = fl_sqrt (Fin (sum_list (map (\<lambda>x. (x - ?m)\<^sup>2) xs) / (real (length xs) - 1)))"
    using n by (simp only: sq fl_sum_Fin) simp
  also have "\<dots> = Fin (sample_std xs)"
    using q by (simp add: sample_std_def)
  finally show ?thesis .
qed

lemma compute_Inr:
  assumes "snd (compute_sharpe_metrics df c rf) = Inr m"
  shows "annual_vol m =
      fl_mul (series_std (map snd (daily_returns_complete m))) (Fin (sqrt 252))"
    and "annual_sharpe m =
      fl_mul (fl_div (fl_sub (series_mean (map snd (daily_returns_complete m))) (Fin (rf / 252)))
                (series_std (map snd (daily_returns_complete m)))) (Fin (sqrt 252))"
    and "mean_daily_return m = series_mean (map snd (daily_returns_complete m))"
  using assms by (auto simp: compute_sharpe_metrics_def Let_def split: sum.splits)

lemma zip_map_same: "zip (map f xs) (map g xs) = map (\<lambda>x. (f x, g x)) xs"
  by (induction xs) simp_all

lemma map_of_graph:
  "map_of (map (\<lambda>d. (d, g d)) ks) d = (if d \<in> set ks then Some (g d) else None)"
  by (induction ks) simp_all

lemma daily_returns_eq:
  "map (\<lambda>(d, v). (d, fl_div v (Fin c)))
     (groupby_sum (zip (map (\<lambda>row. to_date (fst row)) (rows df)) (map snd (rows df))))
   = map (\<lambda>d. (d, daily_return df c d))
       (sort (remdups (map (\<lambda>row. to_date (fst row)) (rows df))))"
proof -
  have f: "filter (\<lambda>kv. fst kv = d) (map (\<lambda>row. (to_date (fst row), snd row)) (rows df))
      = map (\<lambda>row. (to_date (fst row), snd row))
          (filter (\<lambda>row. to_date (fst row) = d) (rows df))" for d
    by (simp add: filter_map comp_def)
  show ?thesis
    by (simp add: groupby_sum_def zip_map_same f comp_def daily_return_def pnl_on_def
        del: fl_div.simps)
qed

lemma compute_unfold:
  "snd (compute_sharpe_metrics df c rf) =
     (let dr = map (\<lambda>d. (d, daily_return df c d))
                 (sort (remdups (map (\<lambda>row. to_date (fst row)) (rows df))))
      in case date_range (index_min (map fst dr)) (index_max (map fst dr)) of
           Inl e \<Rightarrow> Inl e
         | Inr idx \<Rightarrow>
             Inr \<lparr>daily_returns_complete = fillna (Fin 0) (reindex dr idx),
                  annual_vol = annual_vol (projr (snd (compute_sharpe_metrics df c rf))),
                  annual_sharpe = annual_sharpe (projr (snd (compute_sharpe_metrics df c rf))),
                  mean_daily_return =
                    mean_daily_return (projr (snd (compute_sharpe_metrics df c rf)))\<rparr>)"
  by (simp add: compute_sharpe_metrics_def Let_def daily_returns_eq split: sum.splits
      del: fl_div.simps map_map)

lemma compute_empty:
  assumes "rows df = []"
  shows "snd (compute_sharpe_metrics df c rf) = Inl LibraryError"
  using assms by (simp add: compute_unfold index_min_def)

lemma compute_series:
  assumes "rows df \<noteq> []"
  shows "\<exists>m. snd (compute_sharpe_metrics df c rf) = Inr m \<and>
     daily_returns_complete m =
       map (\<lambda>d. (d, if d \<in> exit_dates df \<and> daily_return df c d \<noteq> NaN
                     then daily_return df c d else Fin 0))
         [Min (exit_dates df) .. Max (exit_dates df)]"
proof -
  let ?ks = "sort (remdups (map (\<lambda>row. to_date (fst row)) (rows df)))"
  let ?dr = "map (\<lambda>d. (d, daily_return df c d)) ?ks"
  have ks: "set ?ks = exit_dates df" by (simp add: exit_dates_def)
  have fst_dr: "map fst ?dr = ?ks" by (simp add: comp_def)
  from assms have "set ?ks \<noteq> {}" by (simp add: ks exit_dates_def)
  then have ne: "?ks \<noteq> []" by (metis (no_types) set_empty)
  have fill: "fillna (Fin 0) (reindex ?dr idx) =
      map (\<lambda>d. (d, if d \<in> exit_dates df \<and> daily_return df c d \<noteq> NaN
                     then daily_return df c d else Fin 0)) idx" for idx
    by (simp add: fillna_def reindex_def map_of_graph exit_dates_def)
  have dr: "date_range (index_min (map fst ?dr)) (index_max (map fst ?dr)) =
      Inr [Min (exit_dates df) .. Max (exit_dates df)]"
    unfolding fst_dr using ne by (simp add: index_min_def index_max_def ks del: set_sort set_remdups)
  show ?thesis
    by (subst compute_unfold) (simp add: Let_def dr fill del: map_map)
qed


lemma fl_div_NaN [simp]: "fl_div x NaN = NaN"
  by (cases x) simp_all

lemmas metrics_eval = compute_sharpe_metrics_def to_date_def groupby_sum_def reindex_def
  fillna_def series_std_def series_mean_def fl_sum_def fl_sub_def index_min_def index_max_def
  Let_def

text \<open>
  C4, as the claim states it: every day on which trades closed would have to hold the sum
  of that day's \<open>pnl\<close> divided by \<open>start_cash\<close>. With a starting capital of zero, a day
  whose \<open>pnl\<close> sums to zero has the quotient \<open>0 / 0\<close>, which is NaN, and holds \<open>0.0\<close>; and a
  day with a NaN \<open>pnl\<close> among its trades, whose sum is NaN, holds the sum of the other
  trades divided by \<open>start_cash\<close>.
\<close>

theorem zero_cash_and_nan_pnl_days:
  "map_sum id daily_returns_complete
     (snd (compute_sharpe_metrics \<lparr>rows = [(0, Fin 0), (86400, Fin 5)], exit_date = None\<rparr> 0 0))
     = Inr [(0, Fin 0), (1, PosInf)] \<and>
   fl_div (fl_sum [Fin 0]) (Fin 0) = NaN \<and>
   map_sum id daily_returns_complete
     (snd (compute_sharpe_metrics \<lparr>rows = [(0, NaN), (5, Fin 100)], exit_date = None\<rparr> 10000 0))
     = Inr [(0, Fin (1 / 100))] \<and>
   fl_div (fl_sum [NaN, Fin 100]) (Fin 10000) = NaN"
  by (simp add: metrics_eval upto.simps)

text \<open>
  C4, amended. For a frame with at least one trade the call returns, and the daily-return
  series has one entry for each calendar day from the earliest to the latest exit date, in
  order: \<open>(max - min) + 1\<close> entries. A day on which no trade closed has the return \<open>0.0\<close>.
  A day on which trades closed has the sum of their \<open>pnl\<close> values other than NaN, divided
  by \<open>start_cash\<close> as floats are divided, except that a NaN quotient is replaced by \<open>0.0\<close>;
  so when \<open>start_cash\<close> is not zero and that sum is finite, the day has the sum divided by
  \<open>start_cash\<close>.
\<close>

theorem reindexed_series_covers_every_day:
  assumes "rows df \<noteq> []"
  shows "\<exists>m. snd (compute_sharpe_metrics df start_cash rf) = Inr m \<and>
     map fst (daily_returns_complete m) = [Min (exit_dates df) .. Max (exit_dates df)] \<and>
     length (daily_returns_complete m) = nat (Max (exit_dates df) - Min (exit_dates df) + 1) \<and>
     (\<forall>(d, v) \<in> set (daily_returns_complete m).
        (d \<notin> exit_dates df \<longrightarrow> v = Fin 0) \<and>
        (d \<in> exit_dates df \<longrightarrow>
           v = (if daily_return df start_cash d = NaN then Fin 0
                else daily_return df start_cash d)) \<and>
        (\<forall>x. d \<in> exit_dates df \<and> start_cash \<noteq> 0 \<and> pnl_on df d = Fin x \<longrightarrow>
           v = Fin (x / start_cash)))"
proof -
  from compute_series [OF assms, of start_cash rf]
  obtain m where m: "snd (compute_sharpe_metrics df start_cash rf) = Inr m"
    "daily_returns_complete m =
       map (\<lambda>d. (d, if d \<in> exit_dates df \<and> daily_return df start_cash d \<noteq> NaN
                     then daily_return df start_cash d else Fin 0))
         [Min (exit_dates df) .. Max (exit_dates df)]"
    by blast
  have a: "map fst (daily_returns_complete m) = [Min (exit_dates df) .. Max (exit_dates df)]"
    by (simp add: m(2) comp_def)
  have b: "length (daily_returns_complete m) =
      nat (Max (exit_dates df) - Min (exit_dates df) + 1)"
    by (simp add: m(2))
  have c: "\<forall>(d, v) \<in> set (daily_returns_complete m).
        (d \<notin> exit_dates df \<longrightarrow> v = Fin 0) \<and>
        (d \<in> exit_dates df \<longrightarrow>
           v = (if daily_return df start_cash d = NaN then Fin 0
                else daily_return df start_cash d)) \<and>
        (\<forall>x. d \<in> exit_dates df \<and> start_cash \<noteq> 0 \<and> pnl_on df d = Fin x \<longrightarrow>
           v = Fin (x / start_cash))"
    by (auto simp: m(2) daily_return_def)
  from m(1) a b c show ?thesis by blast
qed

theorem reindexed_series_covers_every_day_witness:
  "rows \<lparr>rows = [(0, Fin 100), (172805, Fin (- 40)), (7, Fin 20)], exit_date = None\<rparr> \<noteq> [] \<and>
   (10000::real) \<noteq> 0 \<and>
   (\<exists>m. snd (compute_sharpe_metrics
              \<lparr>rows = [(0, Fin 100), (172805, Fin (- 40)), (7, Fin 20)], exit_date = None\<rparr>
              10000 0) = Inr m \<and>
        daily_returns_complete m = [(0, Fin (3 / 250)), (1, Fin 0), (2, Fin (- (1 / 250)))])"
proof -
  let ?df = "\<lparr>rows = [(0, Fin 100), (172805, Fin (- 40)), (7, Fin 20)], exit_date = None\<rparr>"
  have ed: "exit_dates ?df = {0, 2}" by (auto simp: exit_dates_def to_date_def)
  have u: "[0 .. 2::int] = [0, 1, 2]" by (simp add: upto.simps)
  have pn: "pnl_on ?df 0 = Fin 120" "pnl_on ?df 2 = Fin (- 40)"
    by (simp_all add: pnl_on_def to_date_def fl_sum_def)
  from reindexed_series_covers_every_day [of ?df 10000 0]
  obtain m where m: "snd (compute_sharpe_metrics ?df 10000 0) = Inr m"
    "map fst (daily_returns_complete m) = [0, 1, 2]"
    "\<forall>(d, v) \<in> set (daily_returns_complete m).
        (d \<notin> {0, 2} \<longrightarrow> v = Fin 0) \<and>
        (\<forall>x. d \<in> {0, 2} \<and> pnl_on ?df d = Fin x \<longrightarrow> v = Fin (x / 10000))"
    by (auto simp: ed u)
  from m(2) obtain a b c where "daily_returns_complete m = [(0, a), (1, b), (2, c)]"
    by (auto simp: map_eq_Cons_conv)
  with m(3) pn have "daily_returns_complete m = [(0, Fin (3 / 250)), (1, Fin 0), (2, Fin (- (1 / 250)))]"
    by simp
  with m(1) show ?thesis by simp
qed

text \<open>
  C5, as the claim states it: a frame with a single trade gives a one-day series, and the
  computation would have to fail with \<open>DegenerateSeriesError\<close>. It returns instead, with
  NaN as annualised volatility and as annualised Sharpe ratio.
\<close>

theorem single_trade_returns_nan:
  "snd (compute_sharpe_metrics \<lparr>rows = [(0, Fin 100)], exit_date = None\<rparr> 10000 (4 / 10000))
   = Inr \<lparr>daily_returns_complete = [(0, Fin (1 / 100))], annual_vol = NaN,
           annual_sharpe = NaN, mean_daily_return = Fin (1 / 100)\<rparr>"
  by (simp add: metrics_eval)

text \<open>
  C5, amended: no error is signalled for a degenerate series. For every frame with at
  least one trade the call returns a tuple; when the filled series has a single day, the
  annualised volatility and the annualised Sharpe ratio in it are NaN.
\<close>

theorem degenerate_series_returns_silently:
  assumes "rows df \<noteq> []"
  shows "\<exists>m. snd (compute_sharpe_metrics df start_cash rf) = Inr m \<and>
     (length (daily_returns_complete m) = 1 \<longrightarrow> annual_vol m = NaN \<and> annual_sharpe m = NaN)"
proof -
  from compute_series [OF assms, of start_cash rf]
  obtain m where m: "snd (compute_sharpe_metrics df start_cash rf) = Inr m" by blast
  note c = compute_Inr [OF m]
  let ?S = "map snd (daily_returns_complete m)"
  have "annual_vol m = NaN \<and> annual_sharpe m = NaN"
    if "length (daily_returns_complete m) = 1"
  proof -
    from that have "series_std ?S = NaN" by (simp add: series_std_def Let_def)
    then show ?thesis by (simp add: c)
  qed
  with m show ?thesis by blast
qed

theorem degenerate_series_returns_silently_witness:
  "rows \<lparr>rows = [(10, Fin 7), (500, Fin 7)], exit_date = None\<rparr> \<noteq> [] \<and>
   (\<exists>m. snd (compute_sharpe_metrics \<lparr>rows = [(10, Fin 7), (500, Fin 7)], exit_date = None\<rparr>
              10000 (4 / 10000)) = Inr m \<and>
        length (daily_returns_complete m) = 1 \<and> annual_vol m = NaN \<and> annual_sharpe m = NaN)"
proof -
  let ?df = "\<lparr>rows = [(10, Fin 7), (500, Fin 7)], exit_date = None\<rparr>"
  have ne: "rows ?df \<noteq> []" by simp
  have ed: "exit_dates ?df = {0}" by (auto simp: exit_dates_def to_date_def)
  from compute_series [OF ne, of 10000 "4 / 10000"]
  obtain m0 where m0: "snd (compute_sharpe_metrics ?df 10000 (4 / 10000)) = Inr m0"
    "length (daily_returns_complete m0) = 1"
    by (auto simp: ed)
  from degenerate_series_returns_silently [OF ne, of 10000 "4 / 10000"] m0 show ?thesis by auto
qed

text \<open>
  C6, as the claim states it: with no trade in the frame the computation would have to
  fail with \<open>EmptyLedgerError\<close>. The exception comes from inside pandas and is not that
  error.
\<close>

theorem empty_ledger_error_is_not_typed:
  "snd (compute_sharpe_metrics \<lparr>rows = [], exit_date = None\<rparr> 10000 (4 / 10000))
     = Inl LibraryError \<and>
   snd (compute_sharpe_metrics \<lparr>rows = [], exit_date = None\<rparr> 10000 (4 / 10000))
     \<noteq> Inl EmptyLedgerError"
  by (simp add: metrics_eval)

text \<open>
  C6, amended: with no trade in the frame the computation returns no values and fails with
  the exception that pandas raises when the date range is built from the NaN bounds of the
  empty index.
\<close>

theorem empty_ledger_fails:
  assumes "rows df = []"
  shows "snd (compute_sharpe_metrics df start_cash rf) = Inl LibraryError"
  using assms by (rule compute_empty)

theorem empty_ledger_fails_witness:
  "rows \<lparr>rows = [], exit_date = Some []\<rparr> = [] \<and>
   snd (compute_sharpe_metrics \<lparr>rows = [], exit_date = Some []\<rparr> 500 0) = Inl LibraryError"
  using empty_ledger_fails [of "\<lparr>rows = [], exit_date = Some []\<rparr>" 500 0] by simp

text \<open>
  C8. When the filled daily-return series consists of the finite values \<open>xs\<close>, has at
  least two entries and a sample standard deviation (denominator \<open>N - 1\<close>) other than
  zero, the annualised volatility is that deviation times \<open>sqrt 252\<close>, the annualised
  Sharpe ratio is the mean minus \<open>risk_free_rate / 252\<close>, divided by the deviation, times
  \<open>sqrt 252\<close>, and the mean daily return is the arithmetic mean of the series, without the
  risk-free rate.
\<close>

theorem sharpe_metrics_formulas:
  assumes "snd (compute_sharpe_metrics df start_cash rf) = Inr m"
    and "map snd (daily_returns_complete m) = map Fin xs"
    and "2 \<le> length xs" and "sample_std xs \<noteq> 0"
  shows "annual_vol m = Fin (sample_std xs * sqrt 252) \<and>
     annual_sharpe m = Fin ((mean xs - rf / 252) / sample_std xs * sqrt 252) \<and>
     mean_daily_return m = Fin (mean xs)"
proof -
  from assms(3) have ne: "xs \<noteq> []" by auto
  note c = compute_Inr [OF assms(1), unfolded assms(2) series_std_Fin [OF assms(3)]
      series_mean_Fin [OF ne]]
  from c assms(4) show ?thesis by (simp add: fl_sub_def)
qed

theorem sharpe_metrics_formulas_witness:
  "\<exists>m. snd (compute_sharpe_metrics \<lparr>rows = [(0, Fin 100), (86400, Fin (- 40))], exit_date = None\<rparr>
              10000 0) = Inr m \<and>
        map snd (daily_returns_complete m) = map Fin [1 / 100, - (1 / 250)] \<and>
        (2::nat) \<le> length [1 / 100, - (1 / 250) :: real] \<and>
        sample_std [1 / 100, - (1 / 250)] \<noteq> 0 \<and>
        annual_vol m = Fin (sample_std [1 / 100, - (1 / 250)] * sqrt 252) \<and>
        annual_sharpe m =
          Fin ((mean [1 / 100, - (1 / 250)] - 0 / 252) / sample_std [1 / 100, - (1 / 250)]
               * sqrt 252) \<and>
        mean_daily_return m = Fin (3 / 1000)"
proof -
  let ?df = "\<lparr>rows = [(0, Fin 100), (86400, Fin (- 40))], exit_date = None\<rparr>"
  let ?xs = "[1 / 100, - (1 / 250) :: real]"
  have ne: "rows ?df \<noteq> []" by simp
  have ed: "exit_dates ?df = {0, 1}" by (simp add: exit_dates_def to_date_def)
  have u: "[0 .. 1::int] = [0, 1]" by (simp add: upto.simps)
  from compute_series [OF ne, of 10000 0]
  obtain m where m: "snd (compute_sharpe_metrics ?df 10000 0) = Inr m"
    "map snd (daily_returns_complete m) = map Fin ?xs"
    by (auto simp: ed u daily_return_def pnl_on_def to_date_def fl_sum_def)
  have l: "2 \<le> length ?xs" by simp
  have mn: "mean ?xs = 3 / 1000" by (simp add: mean_def)
  have sd: "sample_std ?xs \<noteq> 0" by (simp add: sample_std_def mn power2_eq_square)
  from sharpe_metrics_formulas [OF m l sd] have "annual_vol m = Fin (sample_std ?xs * sqrt 252)"
    "annual_sharpe m = Fin ((mean ?xs - 0 / 252) / sample_std ?xs * sqrt 252)"
    "mean_daily_return m = Fin (3 / 1000)"
    by (simp_all add: mn)
  with m sd show ?thesis by (intro exI [of _ m]) simp
qed

text \<open>
  C9, as the claim states it: the frame would have to be the same after the call as
  before. A frame without the column \<open>exit_date\<close> has that column afterwards.
\<close>

theorem ledger_gains_exit_date_column:
  "fst (compute_sharpe_metrics \<lparr>rows = [(0, Fin 100)], exit_date = None\<rparr> 10000 (4 / 10000))
     \<noteq> \<lparr>rows = [(0, Fin 100)], exit_date = None\<rparr>"
  by (simp add: metrics_eval)

text \<open>
  C9, amended: the call leaves the rows of the frame (the columns \<open>exit_time\<close> and \<open>pnl\<close>)
  and every other column as they were, and sets the column \<open>exit_date\<close> to the calendar
  days of the exit times, adding the column when the frame did not have it.
\<close>

theorem ledger_after_call:
  "fst (compute_sharpe_metrics df start_cash rf) =
     df\<lparr>exit_date := Some (map (\<lambda>row. to_date (fst row)) (rows df))\<rparr>"
  by (simp add: compute_sharpe_metrics_def Let_def split: sum.splits)

end
